theory Spec2Isabelle
  imports Main "HOL-Library.AList"
begin

section \<open>log/logrus.go: the field map of the Logrus facade\<close>

text \<open>
  The variadic arguments of the logging methods are values of Go's empty interface.
  Only the distinction between a string and anything else matters to \<open>getFields\<close>,
  which asserts \<open>args[i-1].(string)\<close> and panics when the assertion fails.
\<close>

datatype arg = AString string | AInt int | ABool bool | ANil

datatype panic = TypeAssertionPanic

type_synonym fields = "string \<rightharpoonup> arg"

text \<open>
  The loop \<open>for i := 1; i < len(args); i += 2 { fieldMap[args[i-1].(string)] = args[i-1] }\<close>.
\<close>

function getFields_loop :: "arg list \<Rightarrow> nat \<Rightarrow> fields \<Rightarrow> panic + fields" where
  "getFields_loop args i fieldMap =
     (if i < length args then
        (case args ! (i - 1) of
           AString k \<Rightarrow> getFields_loop args (i + 2) (fieldMap(k \<mapsto> args ! (i - 1)))
         | _ \<Rightarrow> Inl TypeAssertionPanic)
      else Inr fieldMap)"
  by pat_completeness auto
termination
  by (relation "measure (\<lambda>(args, i, fieldMap). length args - i)") auto

declare getFields_loop.simps [simp del]

definition getFields :: "arg list \<Rightarrow> panic + fields" where
  "getFields args =
     (if length args > 1 \<and> length args mod 2 = 0 then getFields_loop args 1 Map.empty
      else Inr Map.empty)"

fun is_string :: "arg \<Rightarrow> bool" where
  "is_string (AString s) = True"
| "is_string _ = False"


section \<open>config/config.go: the configuration loader\<close>

subsection \<open>Go values, reflection kinds and the target of \<open>Load\<close>\<close>

text \<open>
  The part of \<open>reflect.Kind\<close> that \<open>verifyParamIsPtrToStructElsePanic\<close> can meet here.
\<close>

datatype kind = KInvalid | KBool | KInt | KString | KSlice | KMap | KStruct | KPtr

text \<open>
  A Go value of a configuration schema. A struct is the list of its fields in declaration
  order; a field has its key (the field's name, or its \<open>mapstructure\<close> tag), the value of
  its \<open>default\<close> tag when it has one, already read at the field's type, and its current
  value. Slices and maps keep their elements, which may again be structs.
\<close>

datatype gv =
    GBool bool
  | GInt int
  | GString string
  | GSlice "gv list"
  | GMap "(string \<times> gv) list"
  | GStruct "fld list"
and fld = Fld (fname: string) (fdefault: "gv option") (fval: gv)

fun kindOf :: "gv \<Rightarrow> kind" where
  "kindOf (GBool b) = KBool"
| "kindOf (GInt i) = KInt"
| "kindOf (GString s) = KString"
| "kindOf (GSlice xs) = KSlice"
| "kindOf (GMap kvs) = KMap"
| "kindOf (GStruct fs) = KStruct"

text \<open>
  The argument \<open>config interface{}\<close> of \<open>Load\<close>: the nil interface, a value that is not a
  pointer, or a pointer, which is nil (\<open>None\<close>) or points to a value.
\<close>

datatype param = PNil | PValue gv | PPtr "gv option"

text \<open>\<open>reflect.ValueOf(param).Kind()\<close>; the zero \<open>Value\<close> of the nil interface has kind Invalid.\<close>

fun valueKind :: "param \<Rightarrow> kind" where
  "valueKind PNil = KInvalid"
| "valueKind (PValue g) = kindOf g"
| "valueKind (PPtr p) = KPtr"

text \<open>
  \<open>reflect.Indirect(value).Kind()\<close>: the kind of the pointee, Invalid for a nil pointer, and the
  value's own kind when it is not a pointer.
\<close>

fun indirectKind :: "param \<Rightarrow> kind" where
  "indirectKind (PPtr None) = KInvalid"
| "indirectKind (PPtr (Some g)) = kindOf g"
| "indirectKind p = valueKind p"

text \<open>
  The errors \<open>Load\<close> returns, under the names of the specification's taxonomy. In the source
  each is a \<open>fmt.Errorf\<close>:
  \<^item> \<open>InvalidTargetError\<close>: "require ptr to a struct for Load. Got ..." and
    "require ptr to a struct for Load. got ptr to ...";
  \<^item> \<open>ConfigFileParseError\<close>: "unable to read configs using viper: ...";
  \<^item> \<open>SchemaDecodeError\<close>: "unable to get all config keys from struct: ...";
  \<^item> \<open>EnvironmentBindError\<close>: "unable to bind env keys: ...";
  \<^item> \<open>DecodeError\<close>: "unable to load config to struct: ...".
\<close>

datatype error =
    InvalidTargetError
  | ConfigFileParseError
  | SchemaDecodeError
  | EnvironmentBindError
  | DecodeError

definition verifyParamIsPtrToStructElsePanic :: "param \<Rightarrow> error option" where
  "verifyParamIsPtrToStructElsePanic p =
     (if valueKind p \<noteq> KPtr then Some InvalidTargetError
      else if indirectKind p \<noteq> KStruct then Some InvalidTargetError
      else None)"

subsection \<open>The file system and the environment\<close>

text \<open>
  A configuration file is known by what parsing it in the format of its extension gives:
  it is malformed, or it holds settings, a list of Key Paths with their values.
\<close>

datatype fcontent = Malformed | Settings "(string \<times> gv) list"

record world =
  files :: "string \<rightharpoonup> fcontent"
  environ :: "string \<rightharpoonup> string"

text \<open>What a call reads from the world, in order.\<close>

datatype io = FileAccess string | EnvLookup string

subsection \<open>The Source Resolver (viper)\<close>

text \<open>
  The settings of a \<open>viper.Viper\<close> instance that \<open>config.go\<close> writes, with the environment
  bindings (Key Path to variable name) and the File source (Key Path to value) that
  \<open>BindEnv\<close> and \<open>ReadInConfig\<close> keep in the instance.
\<close>

record viper =
  configName :: string
  configPaths :: "string list"
  configType :: string
  envPrefix :: string
  envKeyReplacer :: "(string \<times> string) option"
  automaticEnvApplied :: bool
  env :: "(string \<times> string) list"
  config :: "(string \<times> gv) list"

text \<open>\<open>viper.New()\<close>: nothing is set.\<close>

definition viper_New :: viper where
  "viper_New = \<lparr> configName = [], configPaths = [], configType = [], envPrefix = [],
     envKeyReplacer = None, automaticEnvApplied = False, env = [], config = [] \<rparr>"

text \<open>
  Modelled from the spec: the setters of the viper library, which is not part of the
  repository's sources. The specification's construction options (section 6) say what each
  does: the base name, the file type, the prefix and the replacement pair are set, and a
  search path is appended.
\<close>

definition SetConfigName :: "string \<Rightarrow> viper \<Rightarrow> viper" where
  "SetConfigName n vp = vp\<lparr>configName := n\<rparr>"

definition AddConfigPath :: "string \<Rightarrow> viper \<Rightarrow> viper" where
  "AddConfigPath p vp = vp\<lparr>configPaths := configPaths vp @ [p]\<rparr>"

definition SetConfigType :: "string \<Rightarrow> viper \<Rightarrow> viper" where
  "SetConfigType t vp = vp\<lparr>configType := t\<rparr>"

definition SetEnvPrefix :: "string \<Rightarrow> viper \<Rightarrow> viper" where
  "SetEnvPrefix p vp = vp\<lparr>envPrefix := p\<rparr>"

definition SetEnvKeyReplacer :: "string \<times> string \<Rightarrow> viper \<Rightarrow> viper" where
  "SetEnvKeyReplacer r vp = vp\<lparr>envKeyReplacer := Some r\<rparr>"

text \<open>\<open>strings.NewReplacer(old, new)\<close> is kept as the pair \<open>(old, new)\<close>.\<close>

definition strings_NewReplacer :: "string \<Rightarrow> string \<Rightarrow> string \<times> string" where
  "strings_NewReplacer old new = (old, new)"

subsection \<open>The Loader and its options\<close>

text \<open>
  The Loader holds a pointer to a viper instance (\<open>v *viper.Viper\<close>), and the options and
  \<open>Load\<close> write to the instance it points to. The instances live in a store, a list in which
  an address is a position; \<open>None\<close> is the nil pointer. Calling a method of viper that writes
  to the instance through a nil pointer panics, and so does, in the model, an address at
  which the store holds nothing.
\<close>

type_synonym addr = nat

type_synonym heap = "viper list"

datatype cfgpanic = NilPointerDereference

record Loader =
  l_v :: "addr option"

definition onViper :: "(viper \<Rightarrow> viper) \<Rightarrow> Loader \<Rightarrow> heap \<Rightarrow> cfgpanic + Loader \<times> heap" where
  "onViper f l h =
     (case l_v l of
        None \<Rightarrow> Inl NilPointerDereference
      | Some a \<Rightarrow>
          if a < length h then Inr (l, h[a := f (h ! a)]) else Inl NilPointerDereference)"

text \<open>
  A \<open>LoaderOption\<close> is a function on the Loader; the six the package builds are told apart
  by their constructor, and \<open>applyOption\<close> is the body of each closure. \<open>WithViper\<close> stores
  the pointer it is given; the others call a setter on the instance the Loader points to.
\<close>

datatype LoaderOption =
    WithViper "addr option"
  | WithConfigName string
  | WithConfigPath string
  | WithConfigType string
  | WithEnvPrefix string
  | WithEnvKeyReplacer string string

fun applyOption :: "LoaderOption \<Rightarrow> Loader \<Rightarrow> heap \<Rightarrow> cfgpanic + Loader \<times> heap" where
  "applyOption (WithViper vin) l h = Inr (l\<lparr>l_v := vin\<rparr>, h)"
| "applyOption (WithConfigName n) l h = onViper (SetConfigName n) l h"
| "applyOption (WithConfigPath p) l h = onViper (AddConfigPath p) l h"
| "applyOption (WithConfigType t) l h = onViper (SetConfigType t) l h"
| "applyOption (WithEnvPrefix p) l h = onViper (SetEnvPrefix p) l h"
| "applyOption (WithEnvKeyReplacer old new) l h =
     onViper (SetEnvKeyReplacer (strings_NewReplacer old new)) l h"

text \<open>
  \<open>getViperWithDefaults\<close> makes a new instance, at an address no pointer holds yet, and sets
  its four defaults.
\<close>

definition getViperWithDefaults :: "heap \<Rightarrow> addr option \<times> heap" where
  "getViperWithDefaults h =
     (Some (length h),
      h @ [SetEnvKeyReplacer (strings_NewReplacer ''.'' ''_'')
             (SetConfigType ''yaml'' (AddConfigPath ''./'' (SetConfigName ''config'' viper_New)))])"

text \<open>The loop \<open>for _, option := range options { option(loader) }\<close>.\<close>

fun applyOptions :: "LoaderOption list \<Rightarrow> Loader \<Rightarrow> heap \<Rightarrow> cfgpanic + Loader \<times> heap" where
  "applyOptions [] l h = Inr (l, h)"
| "applyOptions (opt # options) l h =
     (case applyOption opt l h of
        Inl e \<Rightarrow> Inl e
      | Inr (l', h') \<Rightarrow> applyOptions options l' h')"

definition NewLoader :: "LoaderOption list \<Rightarrow> heap \<Rightarrow> cfgpanic + Loader \<times> heap" where
  "NewLoader options h =
     (case getViperWithDefaults h of (p, h') \<Rightarrow> applyOptions options \<lparr> l_v = p \<rparr> h')"

subsection \<open>Environment variable names\<close>

text \<open>
  \<open>strings.Replacer.Replace\<close> for one pair: every non-overlapping occurrence of \<open>old\<close>,
  from the left, becomes \<open>new\<close>; an empty \<open>old\<close> matches before every character and at the
  end.
\<close>

function Replace :: "string \<times> string \<Rightarrow> string \<Rightarrow> string" where
  "Replace (old, new) s =
     (if old = [] then (case s of [] \<Rightarrow> new | c # cs \<Rightarrow> new @ c # Replace (old, new) cs)
      else (case s of
              [] \<Rightarrow> []
            | c # cs \<Rightarrow>
                if take (length old) s = old
                then new @ Replace (old, new) (drop (length old) s)
                else c # Replace (old, new) cs))"
  by pat_completeness auto
termination
  by (relation "measure (\<lambda>(r, s). length s)") auto

declare Replace.simps [simp del]

text \<open>\<open>strings.ToUpper\<close> on the ASCII letters.\<close>

definition toUpperChar :: "char \<Rightarrow> char" where
  "toUpperChar c =
     (let n = (of_char c :: nat) in if 97 \<le> n \<and> n \<le> 122 then char_of (n - 32) else c)"

definition ToUpper :: "string \<Rightarrow> string" where
  "ToUpper s = map toUpperChar s"

text \<open>
  Modelled from the spec: how viper names the environment variable of a Key Path, which
  is inside the viper library. Section 4.2 gives \<open>UPPER(PREFIX + "_" + REPLACE(path))\<close>,
  where \<open>REPLACE\<close> is the configured replacement rule; with no rule the path is kept.
\<close>

definition envVarName :: "viper \<Rightarrow> string \<Rightarrow> string" where
  "envVarName vp path =
     ToUpper (envPrefix vp @ ''_'' @
       (case envKeyReplacer vp of None \<Rightarrow> path | Some r \<Rightarrow> Replace r path))"

text \<open>
  Modelled from the spec: \<open>viper.AutomaticEnv\<close>, \<open>viper.BindEnv\<close> and
  \<open>viper.ReadInConfig\<close>, which are inside the viper library. Section 4.3 step 2: automatic
  environment consultation is enabled. Section 4.2, \<open>RegisterKey\<close>: the Key Path is
  registered under its synthesized variable name; the specification names no condition
  under which registering fails, so the error result is never produced.
\<close>

definition AutomaticEnv :: "viper \<Rightarrow> viper" where
  "AutomaticEnv vp = vp\<lparr>automaticEnvApplied := True\<rparr>"

definition BindEnv :: "viper \<Rightarrow> string \<Rightarrow> error option \<times> viper" where
  "BindEnv vp key = (None, vp\<lparr>env := AList.update key (envVarName vp key) (env vp)\<rparr>)"

text \<open>
  Section 4.2, \<open>ReadFile\<close>: the file \<open><config-name>.<config-type>\<close> is looked for in
  the search paths in order and the first match wins. No match is the error value
  \<open>ConfigFileNotFoundError\<close> and the File source is empty; a match that does not parse is
  another error; a match that parses becomes the File source.
\<close>

definition joinPath :: "string \<Rightarrow> string \<Rightarrow> string" where
  "joinPath dir file =
     (if dir = [] then file
      else if last dir = CHR ''/'' then dir @ file
      else dir @ ''/'' @ file)"

definition configFileName :: "viper \<Rightarrow> string" where
  "configFileName vp = configName vp @ ''.'' @ configType vp"

fun searchInPaths :: "world \<Rightarrow> string \<Rightarrow> string list \<Rightarrow> fcontent option \<times> io list" where
  "searchInPaths w file [] = (None, [])"
| "searchInPaths w file (dir # dirs) =
     (case files w (joinPath dir file) of
        Some c \<Rightarrow> (Some c, [FileAccess (joinPath dir file)])
      | None \<Rightarrow>
          (case searchInPaths w file dirs of
             (r, tr) \<Rightarrow> (r, FileAccess (joinPath dir file) # tr)))"

datatype readError = ConfigFileNotFoundError | ConfigParseError

definition ReadInConfig :: "viper \<Rightarrow> world \<Rightarrow> readError option \<times> viper \<times> io list" where
  "ReadInConfig vp w =
     (case searchInPaths w (configFileName vp) (configPaths vp) of
        (None, tr) \<Rightarrow> (Some ConfigFileNotFoundError, vp\<lparr>config := []\<rparr>, tr)
      | (Some Malformed, tr) \<Rightarrow> (Some ConfigParseError, vp, tr)
      | (Some (Settings kvs), tr) \<Rightarrow> (None, vp\<lparr>config := kvs\<rparr>, tr))"

subsection \<open>The Key Flattener\<close>

text \<open>The nested \<open>map[string]interface{}\<close> that \<open>mapstructure.Decode\<close> fills.\<close>

datatype mv = MLeaf gv | MMap "(string \<times> mv) list"

text \<open>
  Modelled from the spec: \<open>mapstructure.Decode\<close> of a struct into a map and
  \<open>flatten.Flatten\<close> in dot style, which are inside the mapstructure and flatten libraries.
  Section 4.1: nested structured fields are walked, map and slice values are opaque leaves
  at the path of their field, an empty schema gives no key, and a target that is not a
  struct cannot be decomposed.
\<close>

fun decodeValue :: "gv \<Rightarrow> mv"
  and decodeFields :: "fld list \<Rightarrow> (string \<times> mv) list" where
  "decodeValue (GStruct fs) = MMap (decodeFields fs)"
| "decodeValue (GBool b) = MLeaf (GBool b)"
| "decodeValue (GInt i) = MLeaf (GInt i)"
| "decodeValue (GString s) = MLeaf (GString s)"
| "decodeValue (GSlice xs) = MLeaf (GSlice xs)"
| "decodeValue (GMap kvs) = MLeaf (GMap kvs)"
| "decodeFields [] = []"
| "decodeFields (Fld name d x # fs) = (name, decodeValue x) # decodeFields fs"

fun mapstructure_Decode :: "param \<Rightarrow> error + (string \<times> mv) list" where
  "mapstructure_Decode (PPtr (Some (GStruct fs))) = Inr (decodeFields fs)"
| "mapstructure_Decode (PValue (GStruct fs)) = Inr (decodeFields fs)"
| "mapstructure_Decode p = Inl SchemaDecodeError"

definition enkey :: "string \<Rightarrow> string \<Rightarrow> string" where
  "enkey prefix subkey = (if prefix = [] then subkey else prefix @ ''.'' @ subkey)"

fun flattenValue :: "string \<Rightarrow> mv \<Rightarrow> (string \<times> gv) list"
  and flattenMap :: "string \<Rightarrow> (string \<times> mv) list \<Rightarrow> (string \<times> gv) list" where
  "flattenValue key (MLeaf x) = [(key, x)]"
| "flattenValue key (MMap kvs) = flattenMap key kvs"
| "flattenMap prefix [] = []"
| "flattenMap prefix ((k, x) # kvs) = flattenValue (enkey prefix k) x @ flattenMap prefix kvs"

definition flatten_Flatten :: "(string \<times> mv) list \<Rightarrow> string \<Rightarrow> error + (string \<times> gv) list" where
  "flatten_Flatten nested prefix = Inr (flattenMap prefix nested)"

text \<open>
  \<open>getFlattenedStructKeys\<close>. The keys of the Go map \<open>flat\<close> are distinct; the order in which
  \<open>range\<close> yields them is not fixed by Go, and the model takes them in field order.
\<close>

definition getFlattenedStructKeys :: "param \<Rightarrow> error + string list" where
  "getFlattenedStructKeys cfg =
     (case mapstructure_Decode cfg of
        Inl e \<Rightarrow> Inl e
      | Inr structMap \<Rightarrow>
          (case flatten_Flatten structMap [] of
             Inl e \<Rightarrow> Inl e
           | Inr flat \<Rightarrow> Inr (remdups (map fst flat))))"

subsection \<open>Defaults, merge and decode\<close>

text \<open>
  Modelled from the spec: \<open>defaults.SetDefaults\<close>, which is inside the go-defaults
  library. Section 4.3 step 5: the declared default of every leaf field is applied onto
  the target; a field's default has the field's type, so a value of another kind is not
  one and the field is left as it is.
\<close>

definition applyDefault :: "gv option \<Rightarrow> gv \<Rightarrow> gv" where
  "applyDefault d x =
     (case d of None \<Rightarrow> x | Some y \<Rightarrow> if kindOf y = kindOf x then y else x)"

fun setDefaultsValue :: "gv option \<Rightarrow> gv \<Rightarrow> gv"
  and setDefaultsFields :: "fld list \<Rightarrow> fld list" where
  "setDefaultsValue d (GStruct fs) = GStruct (setDefaultsFields fs)"
| "setDefaultsValue d (GBool b) = applyDefault d (GBool b)"
| "setDefaultsValue d (GInt i) = applyDefault d (GInt i)"
| "setDefaultsValue d (GString s) = applyDefault d (GString s)"
| "setDefaultsValue d (GSlice xs) = applyDefault d (GSlice xs)"
| "setDefaultsValue d (GMap kvs) = applyDefault d (GMap kvs)"
| "setDefaultsFields [] = []"
| "setDefaultsFields (Fld name d x # fs) = Fld name d (setDefaultsValue d x) # setDefaultsFields fs"

fun defaults_SetDefaults :: "param \<Rightarrow> param" where
  "defaults_SetDefaults (PPtr (Some (GStruct fs))) = PPtr (Some (GStruct (setDefaultsFields fs)))"
| "defaults_SetDefaults p = p"

text \<open>
  Modelled from the spec: \<open>viper.Unmarshal\<close>, which is inside the viper and mapstructure
  libraries. Section 4.2, \<open>Merge\<close>: for a registered Key Path the value is the environment's
  when its variable is set, read when merging, and else the file's; the declared defaults are
  on the target already (step 5). Section 4.3 step 6 and section 7: the merged value of a
  field is coerced to the field's type when it is decoded, a field with no merged value
  keeps what it holds, and a value that cannot be coerced is a \<open>DecodeError\<close>. The coercion
  itself is a parameter, \<open>weakDecode\<close>: the specification only gives examples of it. It
  takes the merged value and the kind of the field; a result of another kind is no value of
  the field's type.
\<close>

definition Merge :: "viper \<Rightarrow> world \<Rightarrow> string \<Rightarrow> gv option" where
  "Merge vp w path =
     (case map_of (env vp) path of
        None \<Rightarrow> None
      | Some name \<Rightarrow>
          (case environ w name of
             Some s \<Rightarrow> Some (GString s)
           | None \<Rightarrow> map_of (config vp) path))"

definition coerce :: "(gv \<Rightarrow> kind \<Rightarrow> gv option) \<Rightarrow> gv \<Rightarrow> gv \<Rightarrow> gv option" where
  "coerce weakDecode raw x =
     (case weakDecode raw (kindOf x) of
        None \<Rightarrow> None
      | Some y \<Rightarrow> if kindOf y = kindOf x then Some y else None)"

definition decodeLeaf :: "(gv \<Rightarrow> kind \<Rightarrow> gv option) \<Rightarrow> (string \<Rightarrow> gv option) \<Rightarrow> string \<Rightarrow> gv \<Rightarrow> gv" where
  "decodeLeaf weakDecode merged key x =
     (case merged key of
        None \<Rightarrow> x
      | Some raw \<Rightarrow> (case coerce weakDecode raw x of None \<Rightarrow> x | Some y \<Rightarrow> y))"

definition leafOk :: "(gv \<Rightarrow> kind \<Rightarrow> gv option) \<Rightarrow> (string \<Rightarrow> gv option) \<Rightarrow> string \<Rightarrow> gv \<Rightarrow> bool" where
  "leafOk weakDecode merged key x =
     (case merged key of
        None \<Rightarrow> True
      | Some raw \<Rightarrow> coerce weakDecode raw x \<noteq> None)"

fun unmarshalValue :: "(gv \<Rightarrow> kind \<Rightarrow> gv option) \<Rightarrow> (string \<Rightarrow> gv option) \<Rightarrow> string \<Rightarrow> gv \<Rightarrow> gv"
  and unmarshalFields :: "(gv \<Rightarrow> kind \<Rightarrow> gv option) \<Rightarrow> (string \<Rightarrow> gv option) \<Rightarrow> string \<Rightarrow> fld list \<Rightarrow> fld list" where
  "unmarshalValue wd m key (GStruct fs) = GStruct (unmarshalFields wd m key fs)"
| "unmarshalValue wd m key (GBool b) = decodeLeaf wd m key (GBool b)"
| "unmarshalValue wd m key (GInt i) = decodeLeaf wd m key (GInt i)"
| "unmarshalValue wd m key (GString s) = decodeLeaf wd m key (GString s)"
| "unmarshalValue wd m key (GSlice xs) = decodeLeaf wd m key (GSlice xs)"
| "unmarshalValue wd m key (GMap kvs) = decodeLeaf wd m key (GMap kvs)"
| "unmarshalFields wd m prefix [] = []"
| "unmarshalFields wd m prefix (Fld name d x # fs) =
     Fld name d (unmarshalValue wd m (enkey prefix name) x) # unmarshalFields wd m prefix fs"

definition unmarshalOk :: "(gv \<Rightarrow> kind \<Rightarrow> gv option) \<Rightarrow> (string \<Rightarrow> gv option) \<Rightarrow> fld list \<Rightarrow> bool" where
  "unmarshalOk wd m fs =
     list_all (\<lambda>(key, x). leafOk wd m key x) (flattenMap [] (decodeFields fs))"

fun Unmarshal :: "(gv \<Rightarrow> kind \<Rightarrow> gv option) \<Rightarrow> viper \<Rightarrow> world \<Rightarrow> param \<Rightarrow> error option \<times> param \<times> io list" where
  "Unmarshal wd vp w (PPtr (Some (GStruct fs))) =
     (if unmarshalOk wd (Merge vp w) fs then None else Some DecodeError,
      PPtr (Some (GStruct (unmarshalFields wd (Merge vp w) [] fs))),
      map (\<lambda>(key, name). EnvLookup name) (env vp))"
| "Unmarshal wd vp w p = (Some DecodeError, p, [])"

subsection \<open>Load\<close>

text \<open>
  The loop \<open>for key := range configKeys { l.v.BindEnv(configKeys[key]) }\<close>, which stops at
  the first error.
\<close>

fun bindKeys :: "viper \<Rightarrow> string list \<Rightarrow> error option \<times> viper" where
  "bindKeys vp [] = (None, vp)"
| "bindKeys vp (key # keys) =
     (case BindEnv vp key of
        (Some e, vp') \<Rightarrow> (Some e, vp')
      | (None, vp') \<Rightarrow> bindKeys vp' keys)"

text \<open>
  \<open>Load\<close> returns its error (\<open>None\<close> is Go's \<open>nil\<close>), and the model returns with it the
  Loader, the store and the target as the call leaves them and what the call read from the
  world. Every call on \<open>l.v\<close> writes to the one instance the Loader points to, so the store
  after the call holds, at that address, the instance as the last call left it. With a nil
  \<open>l.v\<close> the first of these calls, \<open>l.v.AutomaticEnv()\<close>, panics.
\<close>

definition Load :: "(gv \<Rightarrow> kind \<Rightarrow> gv option) \<Rightarrow> Loader \<Rightarrow> heap \<Rightarrow> world \<Rightarrow> param
    \<Rightarrow> cfgpanic + error option \<times> Loader \<times> heap \<times> param \<times> io list" where
  "Load weakDecode l h w cfg =
     (case verifyParamIsPtrToStructElsePanic cfg of
        Some err \<Rightarrow> Inr (Some err, l, h, cfg, [])
      | None \<Rightarrow>
          (case l_v l of
             None \<Rightarrow> Inl NilPointerDereference
           | Some a \<Rightarrow>
               if \<not> a < length h then Inl NilPointerDereference
               else
                 (case ReadInConfig (AutomaticEnv (h ! a)) w of
                    (rerr, v1, tr1) \<Rightarrow>
                      if rerr \<noteq> None \<and> rerr \<noteq> Some ConfigFileNotFoundError
                      then Inr (Some ConfigFileParseError, l, h[a := v1], cfg, tr1)
                      else
                        (case getFlattenedStructKeys cfg of
                           Inl err \<Rightarrow> Inr (Some SchemaDecodeError, l, h[a := v1], cfg, tr1)
                         | Inr configKeys \<Rightarrow>
                             (case bindKeys v1 configKeys of
                                (Some err, v2) \<Rightarrow>
                                  Inr (Some EnvironmentBindError, l, h[a := v2], cfg, tr1)
                              | (None, v2) \<Rightarrow>
                                  (case Unmarshal weakDecode v2 w (defaults_SetDefaults cfg) of
                                     (Some err, cfg', tr2) \<Rightarrow>
                                       Inr (Some DecodeError, l, h[a := v2], cfg', tr1 @ tr2)
                                   | (None, cfg', tr2) \<Rightarrow>
                                       Inr (None, l, h[a := v2], cfg', tr1 @ tr2)))))))"

subsection \<open>Key Paths of a schema, as the specification words them\<close>

text \<open>
  Section 4.1 in its own words, to compare \<open>getFlattenedStructKeys\<close> with: the leaf Key
  Paths of a schema are the dot-delimited paths of the fields that are not structs, reached
  from the top through fields that are structs. A field holding a map or a slice is such a
  leaf, and nothing is said to lie below it.
\<close>

inductive leafPath :: "string \<Rightarrow> fld list \<Rightarrow> string \<Rightarrow> bool" where
  leaf: "Fld name d x \<in> set fs \<Longrightarrow> kindOf x \<noteq> KStruct \<Longrightarrow> leafPath prefix fs (enkey prefix name)"
| nested: "Fld name d (GStruct fs') \<in> set fs \<Longrightarrow> leafPath (enkey prefix name) fs' p \<Longrightarrow>
     leafPath prefix fs p"

text \<open>
  A schema to try the definitions on: a nested struct \<open>server\<close> with an int \<open>port\<close> whose
  default is 8080, a slice of structs \<open>tags\<close> and a map \<open>labels\<close>, and a string \<open>name\<close>.
\<close>

definition exampleSchema :: "fld list" where
  "exampleSchema =
     [Fld ''server'' None (GStruct
        [Fld ''port'' (Some (GInt 8080)) (GInt 0),
         Fld ''tags'' None (GSlice [GStruct [Fld ''k'' None (GString [])]]),
         Fld ''labels'' None (GMap [(''a'', GString ''b'')])]),
      Fld ''name'' None (GString [])]"

subsection \<open>The state of the resolver after the binding loop\<close>

text \<open>
  What the loop over the flattened keys of a struct leaves in the instance: every key of the
  struct is bound to its variable name.
\<close>

definition withBoundKeys :: "viper \<Rightarrow> fld list \<Rightarrow> viper" where
  "withBoundKeys vp fs =
     vp\<lparr>env := foldl (\<lambda>e k. AList.update k (envVarName vp k) e) (env vp)
                  (remdups (map fst (flattenMap [] (decodeFields fs))))\<rparr>"

definition bindAll :: "(string \<Rightarrow> string) \<Rightarrow> (string \<times> string) list \<Rightarrow> string list \<Rightarrow> (string \<times> string) list" where
  "bindAll f e keys = foldl (\<lambda>e k. AList.update k (f k) e) e keys"

subsection \<open>An example coercion, schema and instance\<close>

text \<open>
  A coercion to run \<open>Load\<close> with: a string is read as a decimal number for an int field and
  kept for a string field; any other value is taken for a field of its own kind.
\<close>

fun digitsValue :: "string \<Rightarrow> int \<Rightarrow> int option" where
  "digitsValue [] n = Some n"
| "digitsValue (c # cs) n =
     (let d = (of_char c :: nat)
      in if 48 \<le> d \<and> d \<le> 57 then digitsValue cs (10 * n + int (d - 48)) else None)"

definition parseDecimal :: "string \<Rightarrow> int option" where
  "parseDecimal s = (if s = [] then None else digitsValue s 0)"

definition exampleDecode :: "gv \<Rightarrow> kind \<Rightarrow> gv option" where
  "exampleDecode raw k =
     (case raw of
        GString s \<Rightarrow>
          if k = KInt then map_option GInt (parseDecimal s)
          else if k = KString then Some raw
          else None
      | _ \<Rightarrow> if kindOf raw = k then Some raw else None)"

text \<open>
  The scenario of the specification's section 8: the schema \<open>{Server: {Port int default=8080}}\<close>
  and a Loader instance with the defaults of \<open>NewLoader\<close> and the prefix \<open>APP\<close>.
\<close>

definition portSchema :: "fld list" where
  "portSchema = [Fld ''server'' None (GStruct [Fld ''port'' (Some (GInt 8080)) (GInt 0)])]"

definition appViper :: viper where
  "appViper = \<lparr> configName = ''config'', configPaths = [''./''], configType = ''yaml'',
     envPrefix = ''APP'', envKeyReplacer = Some (''.'', ''_''), automaticEnvApplied = False,
     env = [], config = [] \<rparr>"

section \<open>Properties of the Logrus field map\<close>

text \<open>
  Started at an index \<open>i \<ge> 1\<close>, the loop visits the positions \<open>i - 1, i + 1, ...\<close>. When
  all of them hold strings it returns the map extended by one binding per visited key, each key
  bound to itself; when one of them does not hold a string the type assertion panics.
\<close>

lemma getFields_loop_strings:
  "1 \<le> i \<Longrightarrow> (\<forall>t. i + 2 * t < length args \<longrightarrow> is_string (args ! (i - 1 + 2 * t))) \<Longrightarrow>
   getFields_loop args i m =
     Inr (\<lambda>k. if \<exists>t. i + 2 * t < length args \<and> args ! (i - 1 + 2 * t) = AString k
               then Some (AString k) else m k)"
proof (induction args i m rule: getFields_loop.induct)
  case (1 args i m)
  show ?case
  proof (cases "i < length args")
    case False
    then show ?thesis by (subst getFields_loop.simps) auto
  next
    case True
    from "1.prems"(2) True have "is_string (args ! (i - 1))"
      by (metis add.right_neutral mult_zero_right)
    then obtain s where s: "args ! (i - 1) = AString s" by (cases "args ! (i - 1)") auto
    have shift: "\<And>t. i + 2 + 2 * t = i + 2 * Suc t" "\<And>t. i + 2 - 1 + 2 * t = i - 1 + 2 * Suc t"
      using "1.prems"(1) by auto
    have pre: "\<forall>t. i + 2 + 2 * t < length args \<longrightarrow> is_string (args ! (i + 2 - 1 + 2 * t))"
      unfolding shift using "1.prems"(2) by blast
    have IH: "getFields_loop args (i + 2) (m(s \<mapsto> args ! (i - 1))) =
       Inr (\<lambda>k. if \<exists>t. i + 2 + 2 * t < length args \<and> args ! (i + 2 - 1 + 2 * t) = AString k
               then Some (AString k) else (m(s \<mapsto> args ! (i - 1))) k)"
      by (rule "1.IH"[OF True s _ pre]) simp
    have ex: "\<And>k. (\<exists>t. i + 2 * t < length args \<and> args ! (i - 1 + 2 * t) = AString k) \<longleftrightarrow>
        (k = s \<or> (\<exists>t. i + 2 * Suc t < length args \<and> args ! (i - 1 + 2 * Suc t) = AString k))"
    proof -
      fix k
      show "(\<exists>t. i + 2 * t < length args \<and> args ! (i - 1 + 2 * t) = AString k) \<longleftrightarrow>
        (k = s \<or> (\<exists>t. i + 2 * Suc t < length args \<and> args ! (i - 1 + 2 * Suc t) = AString k))"
        (is "?L \<longleftrightarrow> ?R")
      proof
        assume ?L
        then obtain t where t: "i + 2 * t < length args" "args ! (i - 1 + 2 * t) = AString k" by blast
        show ?R
        proof (cases t)
          case 0
          with t s show ?thesis by simp
        next
          case (Suc t')
          with t show ?thesis by blast
        qed
      next
        assume ?R
        then show ?L
        proof
          assume "k = s"
          with True s have "i + 2 * 0 < length args \<and> args ! (i - 1 + 2 * 0) = AString k" by simp
          then show ?L by blast
        next
          assume "\<exists>t. i + 2 * Suc t < length args \<and> args ! (i - 1 + 2 * Suc t) = AString k"
          then show ?L by blast
        qed
      qed
    qed
    have step: "getFields_loop args i m = getFields_loop args (i + 2) (m(s \<mapsto> args ! (i - 1)))"
      by (subst getFields_loop.simps) (simp only: True if_True s arg.case)
    have fn: "(\<lambda>k. if \<exists>t. i + 2 + 2 * t < length args \<and> args ! (i + 2 - 1 + 2 * t) = AString k
               then Some (AString k) else (m(s \<mapsto> args ! (i - 1))) k) =
          (\<lambda>k. if \<exists>t. i + 2 * t < length args \<and> args ! (i - 1 + 2 * t) = AString k
               then Some (AString k) else m k)"
      unfolding shift ex s fun_upd_apply by (rule ext) auto
    show ?thesis
      unfolding step IH fn ..
  qed
qed

lemma getFields_loop_panic:
  "1 \<le> i \<Longrightarrow> (\<exists>t. i + 2 * t < length args \<and> \<not> is_string (args ! (i - 1 + 2 * t))) \<Longrightarrow>
   getFields_loop args i m = Inl TypeAssertionPanic"
proof (induction args i m rule: getFields_loop.induct)
  case (1 args i m)
  from "1.prems"(2) obtain t where t: "i + 2 * t < length args" "\<not> is_string (args ! (i - 1 + 2 * t))"
    by blast
  then have lt: "i < length args" by simp
  show ?case
  proof (cases "args ! (i - 1)")
    case (AString s)
    with t have "t \<noteq> 0" by (cases t) auto
    then obtain t' where t': "t = Suc t'" by (cases t) auto
    have "i + 2 + 2 * t' < length args \<and> \<not> is_string (args ! (i + 2 - 1 + 2 * t'))"
      using t t' "1.prems"(1) by (simp add: add.commute add.left_commute)
    then have ex': "\<exists>t. i + 2 + 2 * t < length args \<and> \<not> is_string (args ! (i + 2 - 1 + 2 * t))" by blast
    have "getFields_loop args (i + 2) (m(s \<mapsto> args ! (i - 1))) = Inl TypeAssertionPanic"
      by (rule "1.IH"[OF lt AString _ ex']) simp
    then show ?thesis
      by (subst getFields_loop.simps) (simp only: lt if_True AString arg.case)
  qed (subst getFields_loop.simps, simp only: lt if_True arg.case)+
qed


text \<open>
  Claim C10, as the code has it. With fewer than two arguments or an odd number of them
  \<open>getFields\<close> returns the empty map. With an even number, at least two, of arguments whose
  even positions all hold strings, the map binds exactly those keys, each to the key itself,
  so the arguments at odd positions never reach the fields. With an even number of arguments
  one of whose even positions does not hold a string, the type assertion \<open>args[i-1].(string)\<close>
  panics and no map is returned.
\<close>

theorem getFields_fields:
  "getFields args =
     (if length args < 2 \<or> odd (length args) then Inr Map.empty
      else if \<forall>j. 2 * j < length args \<longrightarrow> is_string (args ! (2 * j))
        then Inr (\<lambda>k. if \<exists>j. 2 * j < length args \<and> args ! (2 * j) = AString k
                       then Some (AString k) else None)
        else Inl TypeAssertionPanic)"
proof (cases "length args < 2 \<or> odd (length args)")
  case True
  then have "\<not> (length args > 1 \<and> length args mod 2 = 0)"
    by (auto simp: odd_iff_mod_2_eq_one)
  with True show ?thesis by (simp only: getFields_def if_False if_True)
next
  case False
  then have ev: "even (length args)" and guard: "length args > 1 \<and> length args mod 2 = 0"
    by auto
  have lt: "\<And>t. 1 + 2 * t < length args \<longleftrightarrow> 2 * t < length args"
    "\<And>t. Suc (2 * t) < length args \<longleftrightarrow> 2 * t < length args"
    using ev by presburger+
  have run: "getFields args = getFields_loop args 1 Map.empty"
    by (simp only: getFields_def guard if_True simp_thms)
  show ?thesis
  proof (cases "\<forall>j. 2 * j < length args \<longrightarrow> is_string (args ! (2 * j))")
    case True
    then have "\<forall>t. 1 + 2 * t < length args \<longrightarrow> is_string (args ! (1 - 1 + 2 * t))"
      by (simp add: lt)
    from getFields_loop_strings[OF le_refl this, of Map.empty]
    have "getFields_loop args 1 Map.empty =
       Inr (\<lambda>k. if \<exists>j. 2 * j < length args \<and> args ! (2 * j) = AString k
                 then Some (AString k) else None)"
      by (simp add: lt)
    with run False True show ?thesis by simp
  next
    case nstr: False
    then have "\<exists>t. 1 + 2 * t < length args \<and> \<not> is_string (args ! (1 - 1 + 2 * t))"
      by (simp add: lt)
    from getFields_loop_panic[OF le_refl this, of Map.empty] run False nstr
    show ?thesis by simp
  qed
qed

text \<open>
  The call of the repository's test, \<open>Debug("current values", "day", 11, "month", "aug")\<close>:
  the fields are \<open>day=day\<close> and \<open>month=month\<close>.
\<close>

theorem getFields_fields_witness:
  "\<exists>m. getFields [AString ''day'', AInt 11, AString ''month'', AString ''aug''] = Inr m
      \<and> m ''day'' = Some (AString ''day'') \<and> m ''month'' = Some (AString ''month'')
      \<and> m ''aug'' = None"
proof -
  let ?args = "[AString ''day'', AInt 11, AString ''month'', AString ''aug'']"
  have strs: "\<forall>j. 2 * j < length ?args \<longrightarrow> is_string (?args ! (2 * j))"
  proof (intro allI impI)
    fix j assume "2 * j < length ?args"
    then have "j = 0 \<or> j = 1" by auto
    then show "is_string (?args ! (2 * j))" by auto
  qed
  have "getFields ?args =
     Inr (\<lambda>k. if \<exists>j. 2 * j < length ?args \<and> ?args ! (2 * j) = AString k
               then Some (AString k) else None)"
    using getFields_fields[of ?args] strs by simp
  moreover have "(\<exists>j. 2 * j < length ?args \<and> ?args ! (2 * j) = AString ''day'')"
    by (rule exI[of _ 0]) simp
  moreover have "(\<exists>j. 2 * j < length ?args \<and> ?args ! (2 * j) = AString ''month'')"
    by (rule exI[of _ 1]) simp
  moreover have "\<not> (\<exists>j. 2 * j < length ?args \<and> ?args ! (2 * j) = AString ''aug'')"
  proof
    assume "\<exists>j. 2 * j < length ?args \<and> ?args ! (2 * j) = AString ''aug''"
    then obtain j where j: "2 * j < length ?args" "?args ! (2 * j) = AString ''aug''" by blast
    from j(1) have "j = 0 \<or> j = 1" by auto
    with j(2) show False by auto
  qed
  ultimately show ?thesis by simp
qed

text \<open>
  A key that is not a string: \<open>Info("msg", 1, 2)\<close> has an even number of arguments, at least
  two, and \<open>getFields\<close> returns no field map.
\<close>

theorem getFields_non_string_key_counterexample:
  "\<not> (\<exists>m. getFields [AInt 1, AInt 2] = Inr m)"
  by (simp add: getFields_def getFields_loop.simps)


section \<open>Properties of the configuration loader\<close>

subsection \<open>Target validation\<close>

lemma verify_valid [simp]: "verifyParamIsPtrToStructElsePanic (PPtr (Some (GStruct fs))) = None"
  by (simp add: verifyParamIsPtrToStructElsePanic_def)

lemma verify_invalid:
  "\<forall>fs. cfg \<noteq> PPtr (Some (GStruct fs)) \<Longrightarrow>
   verifyParamIsPtrToStructElsePanic cfg = Some InvalidTargetError"
proof (cases cfg)
  case (PPtr p)
  assume a: "\<forall>fs. cfg \<noteq> PPtr (Some (GStruct fs))"
  show ?thesis
  proof (cases p)
    case None
    with PPtr show ?thesis by (simp add: verifyParamIsPtrToStructElsePanic_def)
  next
    case (Some g)
    with PPtr a show ?thesis
      by (cases g) (simp_all add: verifyParamIsPtrToStructElsePanic_def)
  qed
qed (simp_all add: verifyParamIsPtrToStructElsePanic_def)

text \<open>
  Claim C4. A target that is not a pointer to a struct (a value that is not a pointer, a
  pointer to something else than a struct, a nil pointer, the nil interface) makes \<open>Load\<close>
  return \<open>InvalidTargetError\<close>; the call has read nothing from the file system or the
  environment, and it leaves the target, the Loader and every viper instance as they were.
\<close>

theorem Load_invalid_target:
  "\<forall>fs. cfg \<noteq> PPtr (Some (GStruct fs)) \<Longrightarrow>
   Load weakDecode l h w cfg = Inr (Some InvalidTargetError, l, h, cfg, [])"
  by (simp add: Load_def verify_invalid)

text \<open>A struct passed by value, a pointer to an int, a nil pointer and the nil interface.\<close>

theorem Load_invalid_target_witness:
  "Load (\<lambda>raw k. None) \<lparr>l_v = Some 0\<rparr> [viper_New] \<lparr>files = Map.empty, environ = Map.empty\<rparr>
       (PValue (GStruct []))
     = Inr (Some InvalidTargetError, \<lparr>l_v = Some 0\<rparr>, [viper_New], PValue (GStruct []), [])
   \<and> Load (\<lambda>raw k. None) \<lparr>l_v = Some 0\<rparr> [viper_New] \<lparr>files = Map.empty, environ = Map.empty\<rparr>
       (PPtr (Some (GInt 0)))
     = Inr (Some InvalidTargetError, \<lparr>l_v = Some 0\<rparr>, [viper_New], PPtr (Some (GInt 0)), [])
   \<and> Load (\<lambda>raw k. None) \<lparr>l_v = Some 0\<rparr> [viper_New] \<lparr>files = Map.empty, environ = Map.empty\<rparr>
       (PPtr None)
     = Inr (Some InvalidTargetError, \<lparr>l_v = Some 0\<rparr>, [viper_New], PPtr None, [])
   \<and> Load (\<lambda>raw k. None) \<lparr>l_v = Some 0\<rparr> [viper_New] \<lparr>files = Map.empty, environ = Map.empty\<rparr>
       PNil
     = Inr (Some InvalidTargetError, \<lparr>l_v = Some 0\<rparr>, [viper_New], PNil, [])"
  using Load_invalid_target[of "PValue (GStruct [])"] Load_invalid_target[of "PPtr (Some (GInt 0))"]
    Load_invalid_target[of "PPtr None"] Load_invalid_target[of PNil]
  by simp

subsection \<open>Construction of a Loader\<close>

lemma applyOptions_append:
  "applyOptions (xs @ ys) l h =
     (case applyOptions xs l h of Inl e \<Rightarrow> Inl e | Inr (l', h') \<Rightarrow> applyOptions ys l' h')"
  by (induction xs arbitrary: l h) (auto split: sum.splits)

lemma Loader_replace_v: "(l :: Loader)\<lparr>l_v := vin\<rparr> = \<lparr> l_v = vin \<rparr>"
  by (cases l) simp

lemma NewLoader_snoc:
  "NewLoader opts h = Inr (l, h') \<Longrightarrow> NewLoader (opts @ [opt]) h = applyOption opt l h'"
  by (auto simp: NewLoader_def applyOptions_append split: prod.splits sum.splits)

text \<open>
  The options write only to the instances the Loader points to while they run: the new
  default instance and the instances that \<open>WithViper\<close> installs.
\<close>

lemma applyOption_other_instance:
  "applyOption opt l h = Inr (l', h') \<Longrightarrow> l_v l \<noteq> Some b \<Longrightarrow> opt \<noteq> WithViper (Some b) \<Longrightarrow>
   length h' = length h \<and> h' ! b = h ! b \<and> l_v l' \<noteq> Some b"
  by (cases opt) (auto simp: onViper_def split: option.splits if_splits)

lemma applyOptions_other_instance:
  "applyOptions opts l h = Inr (l', h') \<Longrightarrow> l_v l \<noteq> Some b \<Longrightarrow> WithViper (Some b) \<notin> set opts \<Longrightarrow>
   length h' = length h \<and> h' ! b = h ! b \<and> l_v l' \<noteq> Some b"
proof (induction opts arbitrary: l h)
  case Nil
  then show ?case by simp
next
  case (Cons opt opts)
  from Cons.prems(1) obtain l1 h1 where
    step: "applyOption opt l h = Inr (l1, h1)" and rest: "applyOptions opts l1 h1 = Inr (l', h')"
    by (auto split: sum.splits)
  from Cons.prems(3) have ne: "opt \<noteq> WithViper (Some b)" and notin: "WithViper (Some b) \<notin> set opts"
    by auto
  from applyOption_other_instance[OF step Cons.prems(2) ne]
  have 1: "length h1 = length h" "h1 ! b = h ! b" "l_v l1 \<noteq> Some b" by auto
  from Cons.IH[OF rest 1(3) notin] 1 show ?case by simp
qed

text \<open>
  Claim C9, as the code has it. With no options \<open>NewLoader\<close> makes a new instance with the
  base name "config", the one search path "./", the type "yaml", the replacer of "." by "_",
  and nothing else set. Applied after any options, \<open>WithConfigName\<close>, \<open>WithConfigType\<close>,
  \<open>WithEnvKeyReplacer\<close> and \<open>WithEnvPrefix\<close> each replace one setting of the instance the
  Loader points to; \<open>WithConfigPath\<close> adds its directory after the search paths that
  instance has, the default one included. \<open>WithViper\<close> makes the Loader point to the given
  instance and writes to no instance: an instance that the caller made before and that no
  earlier \<open>WithViper\<close> had installed holds what it held before \<open>NewLoader\<close>, so nothing of the
  earlier options is left, while an instance installed earlier keeps what the options
  between wrote to it.
\<close>

theorem NewLoader_settings:
  "NewLoader [] h =
     Inr (\<lparr> l_v = Some (length h) \<rparr>,
          h @ [\<lparr> configName = ''config'', configPaths = [''./''], configType = ''yaml'',
                 envPrefix = [], envKeyReplacer = Some (''.'', ''_''),
                 automaticEnvApplied = False, env = [], config = [] \<rparr>])
   \<and> (NewLoader opts h = Inr (l, h') \<and> l_v l = Some a \<and> a < length h' \<longrightarrow>
        NewLoader (opts @ [WithConfigName n]) h = Inr (l, h'[a := (h' ! a)\<lparr>configName := n\<rparr>])
      \<and> NewLoader (opts @ [WithConfigType t]) h = Inr (l, h'[a := (h' ! a)\<lparr>configType := t\<rparr>])
      \<and> NewLoader (opts @ [WithEnvKeyReplacer old new]) h =
          Inr (l, h'[a := (h' ! a)\<lparr>envKeyReplacer := Some (old, new)\<rparr>])
      \<and> NewLoader (opts @ [WithEnvPrefix p]) h = Inr (l, h'[a := (h' ! a)\<lparr>envPrefix := p\<rparr>])
      \<and> NewLoader (opts @ [WithConfigPath dir]) h =
          Inr (l, h'[a := (h' ! a)\<lparr>configPaths := configPaths (h' ! a) @ [dir]\<rparr>]))
   \<and> (NewLoader opts h = Inr (l, h') \<longrightarrow>
        NewLoader (opts @ [WithViper vin]) h = Inr (\<lparr> l_v = vin \<rparr>, h'))
   \<and> (NewLoader opts h = Inr (l, h') \<and> b < length h \<and> WithViper (Some b) \<notin> set opts \<longrightarrow>
        h' ! b = h ! b)"
proof (intro conjI impI)
  show "NewLoader [] h =
     Inr (\<lparr> l_v = Some (length h) \<rparr>,
          h @ [\<lparr> configName = ''config'', configPaths = [''./''], configType = ''yaml'',
                 envPrefix = [], envKeyReplacer = Some (''.'', ''_''),
                 automaticEnvApplied = False, env = [], config = [] \<rparr>])"
    by (simp add: NewLoader_def getViperWithDefaults_def viper_New_def SetConfigName_def
        AddConfigPath_def SetConfigType_def SetEnvKeyReplacer_def strings_NewReplacer_def)
next
  assume a: "NewLoader opts h = Inr (l, h') \<and> l_v l = Some a \<and> a < length h'"
  then have n: "NewLoader opts h = Inr (l, h')" by simp
  show "NewLoader (opts @ [WithConfigName n]) h = Inr (l, h'[a := (h' ! a)\<lparr>configName := n\<rparr>])"
    using a by (simp add: NewLoader_snoc[OF n] onViper_def SetConfigName_def)
  show "NewLoader (opts @ [WithConfigType t]) h = Inr (l, h'[a := (h' ! a)\<lparr>configType := t\<rparr>])"
    using a by (simp add: NewLoader_snoc[OF n] onViper_def SetConfigType_def)
  show "NewLoader (opts @ [WithEnvKeyReplacer old new]) h =
          Inr (l, h'[a := (h' ! a)\<lparr>envKeyReplacer := Some (old, new)\<rparr>])"
    using a by (simp add: NewLoader_snoc[OF n] onViper_def SetEnvKeyReplacer_def
        strings_NewReplacer_def)
  show "NewLoader (opts @ [WithEnvPrefix p]) h = Inr (l, h'[a := (h' ! a)\<lparr>envPrefix := p\<rparr>])"
    using a by (simp add: NewLoader_snoc[OF n] onViper_def SetEnvPrefix_def)
  show "NewLoader (opts @ [WithConfigPath dir]) h =
          Inr (l, h'[a := (h' ! a)\<lparr>configPaths := configPaths (h' ! a) @ [dir]\<rparr>])"
    using a by (simp add: NewLoader_snoc[OF n] onViper_def AddConfigPath_def)
next
  assume n: "NewLoader opts h = Inr (l, h')"
  show "NewLoader (opts @ [WithViper vin]) h = Inr (\<lparr> l_v = vin \<rparr>, h')"
    by (simp add: NewLoader_snoc[OF n] Loader_replace_v)
next
  assume a: "NewLoader opts h = Inr (l, h') \<and> b < length h \<and> WithViper (Some b) \<notin> set opts"
  let ?d = "snd (getViperWithDefaults h)"
  from a have run: "applyOptions opts \<lparr> l_v = Some (length h) \<rparr> ?d = Inr (l, h')"
    by (simp add: NewLoader_def getViperWithDefaults_def)
  from a have ne: "l_v \<lparr> l_v = Some (length h) \<rparr> \<noteq> Some b" by simp
  from applyOptions_other_instance[OF run ne] a have "h' ! b = ?d ! b" by simp
  also from a have "?d ! b = h ! b"
    by (simp add: getViperWithDefaults_def nth_append)
  finally show "h' ! b = h ! b" .
qed

text \<open>
  A store with one instance made by the caller, at address 0, and the one option
  \<open>WithConfigName("app")\<close>: the new instance is at address 1, a further option writes to
  it, a further \<open>WithViper\<close> of address 0 installs the caller's instance, which holds
  what it held.
\<close>

theorem NewLoader_settings_witness:
  "NewLoader [WithConfigName ''app'', WithConfigType ''json''] [viper_New] =
     Inr (\<lparr> l_v = Some 1 \<rparr>,
          [viper_New,
           \<lparr> configName = ''app'', configPaths = [''./''], configType = ''json'',
             envPrefix = [], envKeyReplacer = Some (''.'', ''_''),
             automaticEnvApplied = False, env = [], config = [] \<rparr>])
   \<and> NewLoader [WithConfigName ''app'', WithViper (Some 0)] [viper_New] =
     Inr (\<lparr> l_v = Some 0 \<rparr>,
          [viper_New,
           \<lparr> configName = ''app'', configPaths = [''./''], configType = ''yaml'',
             envPrefix = [], envKeyReplacer = Some (''.'', ''_''),
             automaticEnvApplied = False, env = [], config = [] \<rparr>])"
proof -
  let ?d = "\<lparr> configName = ''app'', configPaths = [''./''], configType = ''yaml'',
             envPrefix = [], envKeyReplacer = Some (''.'', ''_''),
             automaticEnvApplied = False, env = [], config = [] \<rparr>"
  have base: "NewLoader [WithConfigName ''app''] [viper_New] = Inr (\<lparr> l_v = Some 1 \<rparr>, [viper_New, ?d])"
    by (simp add: NewLoader_def getViperWithDefaults_def viper_New_def SetConfigName_def
        AddConfigPath_def SetConfigType_def SetEnvKeyReplacer_def strings_NewReplacer_def
        onViper_def)
  have hyp: "NewLoader [WithConfigName ''app''] [viper_New] = Inr (\<lparr> l_v = Some 1 \<rparr>, [viper_New, ?d])
      \<and> l_v \<lparr> l_v = Some 1 \<rparr> = Some 1 \<and> (1::nat) < length [viper_New, ?d]"
    using base by simp
  have hyp3: "NewLoader [WithConfigName ''app''] [viper_New] = Inr (\<lparr> l_v = Some 1 \<rparr>, [viper_New, ?d])
      \<and> (0::nat) < length [viper_New] \<and> WithViper (Some 0) \<notin> set [WithConfigName ''app'']"
    using base by simp
  note inst = NewLoader_settings[of "[viper_New]" "[WithConfigName ''app'']" "\<lparr> l_v = Some 1 \<rparr>"
      "[viper_New, ?d]" 1 "''app''" "''json''" "''.''" "''_''" "[]" "''./''" "Some 0" 0]
  from inst hyp have "NewLoader ([WithConfigName ''app''] @ [WithConfigType ''json'']) [viper_New] =
      Inr (\<lparr> l_v = Some 1 \<rparr>, [viper_New, ?d][1 := ([viper_New, ?d] ! 1)\<lparr>configType := ''json''\<rparr>])"
    by blast
  moreover from inst base have "NewLoader ([WithConfigName ''app''] @ [WithViper (Some 0)]) [viper_New] =
      Inr (\<lparr> l_v = Some 0 \<rparr>, [viper_New, ?d])"
    by blast
  moreover from inst hyp3 have "[viper_New, ?d] ! 0 = [viper_New] ! 0"
    by blast
  ultimately show ?thesis by simp
qed

text \<open>
  \<open>NewLoader(WithConfigPath("/etc"))\<close> searches "./" and then "/etc": the option has not
  replaced the default search path. And with \<open>v\<close> an instance of the caller, at address 0,
  \<open>NewLoader(WithViper(v), WithConfigName("foo"), WithViper(v))\<close> leaves the Loader with an
  instance whose base name is "foo": the last \<open>WithViper\<close> has not discarded what the option
  before it did.
\<close>

theorem NewLoader_options_counterexample:
  "NewLoader [WithConfigPath ''/etc''] [] =
     Inr (\<lparr> l_v = Some 0 \<rparr>,
          [\<lparr> configName = ''config'', configPaths = [''./'', ''/etc''], configType = ''yaml'',
             envPrefix = [], envKeyReplacer = Some (''.'', ''_''),
             automaticEnvApplied = False, env = [], config = [] \<rparr>])
   \<and> fst (projr (NewLoader [WithViper (Some 0), WithConfigName ''foo'', WithViper (Some 0)]
        [viper_New])) = \<lparr> l_v = Some 0 \<rparr>
   \<and> snd (projr (NewLoader [WithViper (Some 0), WithConfigName ''foo'', WithViper (Some 0)]
        [viper_New])) ! 0 = viper_New\<lparr>configName := ''foo''\<rparr>"
  by (simp add: NewLoader_def getViperWithDefaults_def viper_New_def SetConfigName_def
      AddConfigPath_def SetConfigType_def SetEnvKeyReplacer_def strings_NewReplacer_def
      onViper_def)

subsection \<open>The Key Flattener\<close>


lemma leafPath_Nil [simp]: "\<not> leafPath prefix [] p"
  by (rule notI, erule leafPath.cases) simp_all

lemma leafPath_tail: "leafPath prefix fs p \<Longrightarrow> leafPath prefix (f # fs) p"
proof (erule leafPath.cases)
  fix name d x fs0 prefix0
  assume "prefix = prefix0" "fs = fs0" "p = enkey prefix0 name" "Fld name d x \<in> set fs0"
    "kindOf x \<noteq> KStruct"
  then show ?thesis using leafPath.leaf[of name d x "f # fs" prefix] by simp
next
  fix name d fs' fs0 prefix0 p0
  assume "prefix = prefix0" "fs = fs0" "p = p0" "Fld name d (GStruct fs') \<in> set fs0"
    "leafPath (enkey prefix0 name) fs' p0"
  then show ?thesis using leafPath.nested[of name d fs' "f # fs" prefix p] by simp
qed

lemma leafPath_Cons_struct:
  "leafPath prefix (Fld name d (GStruct fs') # fs) p \<longleftrightarrow>
     leafPath (enkey prefix name) fs' p \<or> leafPath prefix fs p"
  (is "?L \<longleftrightarrow> ?R")
proof
  assume ?L
  then show ?R
  proof (cases rule: leafPath.cases)
    case (leaf name' d' x')
    from leaf(2,3) have "Fld name' d' x' \<in> set fs" by auto
    from leafPath.leaf[OF this leaf(3), of prefix] leaf(1) show ?thesis by simp
  next
    case (nested name' d' fs'')
    from nested(1) have "(name' = name \<and> fs'' = fs') \<or> Fld name' d' (GStruct fs'') \<in> set fs"
      by auto
    then show ?thesis
    proof
      assume "name' = name \<and> fs'' = fs'"
      with nested(2) show ?thesis by simp
    next
      assume "Fld name' d' (GStruct fs'') \<in> set fs"
      from leafPath.nested[OF this nested(2)] show ?thesis by simp
    qed
  qed
next
  assume ?R
  then show ?L
  proof
    assume a: "leafPath (enkey prefix name) fs' p"
    show ?L by (rule leafPath.nested[of name d fs', OF _ a]) simp
  next
    assume "leafPath prefix fs p"
    then show ?L by (rule leafPath_tail)
  qed
qed

lemma leafPath_Cons_leaf:
  assumes k: "kindOf x \<noteq> KStruct"
  shows "leafPath prefix (Fld name d x # fs) p \<longleftrightarrow> p = enkey prefix name \<or> leafPath prefix fs p"
  (is "?L \<longleftrightarrow> ?R")
proof
  assume ?L
  then show ?R
  proof (cases rule: leafPath.cases)
    case (leaf name' d' x')
    from leaf(2) have "name' = name \<or> Fld name' d' x' \<in> set fs" by auto
    then show ?thesis
    proof
      assume "name' = name"
      with leaf(1) show ?thesis by simp
    next
      assume "Fld name' d' x' \<in> set fs"
      from leafPath.leaf[OF this leaf(3), of prefix] leaf(1) show ?thesis by simp
    qed
  next
    case (nested name' d' fs'')
    from nested(1) k have "Fld name' d' (GStruct fs'') \<in> set fs" by auto
    from leafPath.nested[OF this nested(2)] show ?thesis by simp
  qed
next
  assume ?R
  then show ?L
  proof
    assume "p = enkey prefix name"
    moreover have "leafPath prefix (Fld name d x # fs) (enkey prefix name)"
      by (rule leafPath.leaf[of name d x]) (simp_all add: k)
    ultimately show ?L by simp
  next
    assume "leafPath prefix fs p"
    then show ?L by (rule leafPath_tail)
  qed
qed


lemma flatten_decode_paths:
  "p \<in> fst ` set (flattenValue key (decodeValue x)) \<longleftrightarrow>
     (case x of GStruct fs' \<Rightarrow> leafPath key fs' p | _ \<Rightarrow> p = key)"
  "p \<in> fst ` set (flattenMap prefix (decodeFields fs)) \<longleftrightarrow> leafPath prefix fs p"
proof (induction x and fs arbitrary: key and prefix rule: decodeValue_decodeFields.induct)
  case (1 fs)
  then show ?case by simp
next
  case (2 b)
  show ?case by simp
next
  case (3 i)
  show ?case by simp
next
  case (4 s)
  show ?case by simp
next
  case (5 xs)
  show ?case by simp
next
  case (6 kvs)
  show ?case by simp
next
  case 7
  show ?case by simp
next
  case (8 name d x fs)
  have split: "p \<in> fst ` set (flattenMap prefix (decodeFields (Fld name d x # fs))) \<longleftrightarrow>
      p \<in> fst ` set (flattenValue (enkey prefix name) (decodeValue x)) \<or>
      p \<in> fst ` set (flattenMap prefix (decodeFields fs))"
    by (simp add: image_Un)
  have tl: "p \<in> fst ` set (flattenMap prefix (decodeFields fs)) \<longleftrightarrow> leafPath prefix fs p"
    by (rule "8.IH"(2))
  have hd: "p \<in> fst ` set (flattenValue (enkey prefix name) (decodeValue x)) \<longleftrightarrow>
     (case x of GStruct fs' \<Rightarrow> leafPath (enkey prefix name) fs' p | _ \<Rightarrow> p = enkey prefix name)"
    by (rule "8.IH"(1))
  show ?case
  proof (cases "kindOf x = KStruct")
    case True
    then obtain fs' where x: "x = GStruct fs'" by (cases x) simp_all
    from hd have "p \<in> fst ` set (flattenValue (enkey prefix name) (decodeValue x)) \<longleftrightarrow>
        leafPath (enkey prefix name) fs' p"
      unfolding x by simp
    with split tl show ?thesis
      unfolding x leafPath_Cons_struct by simp
  next
    case False
    with hd have "p \<in> fst ` set (flattenValue (enkey prefix name) (decodeValue x)) \<longleftrightarrow>
        p = enkey prefix name"
      by (cases x) simp_all
    with split tl show ?thesis
      unfolding leafPath_Cons_leaf[OF False] by simp
  qed
qed

text \<open>
  Claim C6. For a pointer to a struct, \<open>getFlattenedStructKeys\<close> returns, without
  repetition, exactly the Key Paths of the leaf fields reached through nested structs. A
  field that holds a map or a slice gives one key, its own, whatever its elements are.
\<close>

theorem getFlattenedStructKeys_leaf_paths:
  "(\<exists>keys. getFlattenedStructKeys (PPtr (Some (GStruct fs))) = Inr keys \<and> distinct keys
       \<and> set keys = {p. leafPath [] fs p})
   \<and> (kindOf x = KMap \<or> kindOf x = KSlice \<longrightarrow>
        getFlattenedStructKeys (PPtr (Some (GStruct [Fld name d x]))) = Inr [name])"
proof
  have "getFlattenedStructKeys (PPtr (Some (GStruct fs))) =
      Inr (remdups (map fst (flattenMap [] (decodeFields fs))))"
    by (simp add: getFlattenedStructKeys_def flatten_Flatten_def)
  moreover have "set (remdups (map fst (flattenMap [] (decodeFields fs)))) = {p. leafPath [] fs p}"
  proof (rule set_eqI)
    fix p
    show "p \<in> set (remdups (map fst (flattenMap [] (decodeFields fs)))) \<longleftrightarrow>
        p \<in> {p. leafPath [] fs p}"
      using flatten_decode_paths(2)[of p "[]" fs] by simp
  qed
  ultimately show "\<exists>keys. getFlattenedStructKeys (PPtr (Some (GStruct fs))) = Inr keys
      \<and> distinct keys \<and> set keys = {p. leafPath [] fs p}"
    by simp
next
  show "kindOf x = KMap \<or> kindOf x = KSlice \<longrightarrow>
        getFlattenedStructKeys (PPtr (Some (GStruct [Fld name d x]))) = Inr [name]"
    by (cases x) (simp_all add: getFlattenedStructKeys_def flatten_Flatten_def enkey_def)
qed

text \<open>
  The example schema has the four keys \<open>server.port\<close>, \<open>server.tags\<close>, \<open>server.labels\<close> and
  \<open>name\<close>; the key \<open>a\<close> of the map and the struct \<open>server\<close> itself are no Key Paths.
\<close>

theorem getFlattenedStructKeys_leaf_paths_witness:
  "leafPath [] exampleSchema ''server.port'' \<and> leafPath [] exampleSchema ''server.tags''
   \<and> leafPath [] exampleSchema ''server.labels'' \<and> leafPath [] exampleSchema ''name''
   \<and> \<not> leafPath [] exampleSchema ''server.labels.a'' \<and> \<not> leafPath [] exampleSchema ''server''
   \<and> getFlattenedStructKeys (PPtr (Some (GStruct [Fld ''labels'' None (GMap [(''a'', GString ''b'')])])))
       = Inr [''labels'']"
proof -
  have keys: "getFlattenedStructKeys (PPtr (Some (GStruct exampleSchema))) =
      Inr [''server.port'', ''server.tags'', ''server.labels'', ''name'']"
    by code_simp
  note inst = getFlattenedStructKeys_leaf_paths[of exampleSchema "GMap [(''a'', GString ''b'')]" "''labels''" None]
  from inst have "\<exists>ks. Inr [''server.port'', ''server.tags'', ''server.labels'', ''name''] = (Inr ks :: error + string list)
      \<and> distinct ks \<and> set ks = {p. leafPath [] exampleSchema p}"
    unfolding keys by (rule conjunct1)
  then have eq: "{p. leafPath [] exampleSchema p} = set [''server.port'', ''server.tags'', ''server.labels'', ''name'']"
    by blast
  have mem: "\<And>p. leafPath [] exampleSchema p \<longleftrightarrow> p \<in> set [''server.port'', ''server.tags'', ''server.labels'', ''name'']"
    using eq by blast
  have single: "getFlattenedStructKeys (PPtr (Some (GStruct [Fld ''labels'' None (GMap [(''a'', GString ''b'')])])))
       = Inr [''labels'']"
    using conjunct2[OF inst] by simp
  have 1: "leafPath [] exampleSchema ''server.port''" unfolding mem by simp
  have 2: "leafPath [] exampleSchema ''server.tags''" unfolding mem by simp
  have 3: "leafPath [] exampleSchema ''server.labels''" unfolding mem by simp
  have 4: "leafPath [] exampleSchema ''name''" unfolding mem by simp
  have 5: "\<not> leafPath [] exampleSchema ''server.labels.a''" unfolding mem by simp
  have 6: "\<not> leafPath [] exampleSchema ''server''" unfolding mem by simp
  from 1 2 3 4 5 6 single show ?thesis by blast
qed



subsection \<open>The steps of \<open>Load\<close> on a valid target\<close>

lemma envVarName_env_update [simp]: "envVarName (vp\<lparr>env := e\<rparr>) key = envVarName vp key"
  by (simp add: envVarName_def)

lemma envVarName_config_update [simp]: "envVarName (vp\<lparr>config := c\<rparr>) key = envVarName vp key"
  by (simp add: envVarName_def)

lemma envVarName_AutomaticEnv [simp]: "envVarName (AutomaticEnv vp) key = envVarName vp key"
  by (simp add: envVarName_def AutomaticEnv_def)

lemma envVarName_env_update_fun [simp]: "envVarName (vp\<lparr>env := e\<rparr>) = envVarName vp"
  by (rule ext) simp


lemma bindAll_Nil [simp]: "bindAll f e [] = e"
  by (simp add: bindAll_def)

lemma bindAll_Cons [simp]: "bindAll f e (k # keys) = bindAll f (AList.update k (f k) e) keys"
  by (simp add: bindAll_def)

lemma map_of_bindAll:
  "map_of (bindAll f e keys) k = (if k \<in> set keys then Some (f k) else map_of e k)"
  by (induction keys arbitrary: e) (simp_all add: update_conv')

lemma bindKeys_eq:
  "bindKeys vp keys = (None, vp\<lparr>env := bindAll (envVarName vp) (env vp) keys\<rparr>)"
proof (induction keys arbitrary: vp)
  case Nil
  show ?case by simp
next
  case (Cons k keys)
  show ?case
    by (simp add: BindEnv_def Cons.IH)
qed

lemma searchInPaths_none:
  "\<forall>dir \<in> set dirs. files w (joinPath dir file) = None \<Longrightarrow>
   searchInPaths w file dirs = (None, map (\<lambda>dir. FileAccess (joinPath dir file)) dirs)"
  by (induction dirs) simp_all

lemma searchInPaths_first:
  "\<forall>dir \<in> set ds. files w (joinPath dir file) = None \<Longrightarrow> files w (joinPath d file) = Some c \<Longrightarrow>
   searchInPaths w file (ds @ d # ds') = (Some c, map (\<lambda>dir. FileAccess (joinPath dir file)) (ds @ [d]))"
  by (induction ds) simp_all

lemma kindOf_applyDefault [simp]: "kindOf (applyDefault d x) = kindOf x"
  by (simp add: applyDefault_def split: option.splits)

lemma kindOf_decodeLeaf [simp]: "kindOf (decodeLeaf wd m key x) = kindOf x"
  by (simp add: decodeLeaf_def coerce_def split: option.splits if_splits)

lemma decodeValue_leaf: "kindOf x \<noteq> KStruct \<Longrightarrow> decodeValue x = MLeaf x"
  by (cases x) simp_all

lemma setDefaultsValue_leaf: "kindOf x \<noteq> KStruct \<Longrightarrow> setDefaultsValue d x = applyDefault d x"
  by (cases x) simp_all

lemma unmarshalValue_leaf: "kindOf x \<noteq> KStruct \<Longrightarrow> unmarshalValue wd m key x = decodeLeaf wd m key x"
  by (cases x) simp_all


lemma flatten_unmarshal:
  "flattenValue key (decodeValue (unmarshalValue wd m key x)) =
     map (\<lambda>(k, y). (k, decodeLeaf wd m k y)) (flattenValue key (decodeValue x))"
  "flattenMap prefix (decodeFields (unmarshalFields wd m prefix fs)) =
     map (\<lambda>(k, y). (k, decodeLeaf wd m k y)) (flattenMap prefix (decodeFields fs))"
proof (induction wd m key x and wd m prefix fs rule: unmarshalValue_unmarshalFields.induct)
  case (1 wd m key fs)
  then show ?case by simp
next
  case (2 wd m key b)
  show ?case by (simp add: decodeValue_leaf)
next
  case (3 wd m key i)
  show ?case by (simp add: decodeValue_leaf)
next
  case (4 wd m key s)
  show ?case by (simp add: decodeValue_leaf)
next
  case (5 wd m key xs)
  show ?case by (simp add: decodeValue_leaf)
next
  case (6 wd m key kvs)
  show ?case by (simp add: decodeValue_leaf)
next
  case (7 wd m prefix)
  show ?case by simp
next
  case (8 wd m prefix name d x fs)
  then show ?case by simp
qed

lemma flatten_setDefaults_keys:
  "map fst (flattenValue key (decodeValue (setDefaultsValue d x))) =
     map fst (flattenValue key (decodeValue x))"
  "map fst (flattenMap prefix (decodeFields (setDefaultsFields fs))) =
     map fst (flattenMap prefix (decodeFields fs))"
proof (induction d x and fs arbitrary: key and prefix rule: setDefaultsValue_setDefaultsFields.induct)
  case (1 d fs)
  then show ?case by simp
next
  case (2 d b)
  show ?case by (simp add: decodeValue_leaf)
next
  case (3 d i)
  show ?case by (simp add: decodeValue_leaf)
next
  case (4 d s)
  show ?case by (simp add: decodeValue_leaf)
next
  case (5 d xs)
  show ?case by (simp add: decodeValue_leaf)
next
  case (6 d kvs)
  show ?case by (simp add: decodeValue_leaf)
next
  case 7
  show ?case by simp
next
  case (8 name d x fs)
  then show ?case by simp
qed

lemma decodeLeaf_none: "m key = None \<Longrightarrow> decodeLeaf wd m key x = x"
  by (simp add: decodeLeaf_def)

lemma unmarshal_no_values:
  "\<forall>k \<in> fst ` set (flattenValue key (decodeValue x)). m k = None \<Longrightarrow>
     unmarshalValue wd m key x = x"
  "\<forall>k \<in> fst ` set (flattenMap prefix (decodeFields fs)). m k = None \<Longrightarrow>
     unmarshalFields wd m prefix fs = fs"
proof (induction wd m key x and wd m prefix fs rule: unmarshalValue_unmarshalFields.induct)
  case (1 wd m key fs)
  then show ?case by simp
next
  case (2 wd m key b)
  then show ?case by (simp add: decodeLeaf_none)
next
  case (3 wd m key i)
  then show ?case by (simp add: decodeLeaf_none)
next
  case (4 wd m key s)
  then show ?case by (simp add: decodeLeaf_none)
next
  case (5 wd m key xs)
  then show ?case by (simp add: decodeLeaf_none)
next
  case (6 wd m key kvs)
  then show ?case by (simp add: decodeLeaf_none)
next
  case (7 wd m prefix)
  show ?case by simp
next
  case (8 wd m prefix name d x fs)
  from "8.prems" have a: "\<forall>k \<in> fst ` set (flattenValue (enkey prefix name) (decodeValue x)). m k = None"
    and b: "\<forall>k \<in> fst ` set (flattenMap prefix (decodeFields fs)). m k = None"
    by (simp_all add: image_Un ball_Un)
  from "8.IH"(1)[OF a] "8.IH"(2)[OF b] show ?case by simp
qed

lemma unmarshalOk_no_values:
  "\<forall>k \<in> fst ` set (flattenMap [] (decodeFields fs)). m k = None \<Longrightarrow> unmarshalOk wd m fs"
  by (auto simp: unmarshalOk_def list_all_iff leafOk_def)


lemma getFlattenedStructKeys_valid:
  "getFlattenedStructKeys (PPtr (Some (GStruct fs))) =
     Inr (remdups (map fst (flattenMap [] (decodeFields fs))))"
  by (simp add: getFlattenedStructKeys_def flatten_Flatten_def)

lemma bindKeys_withBoundKeys:
  "bindKeys vp (remdups (map fst (flattenMap [] (decodeFields fs)))) = (None, withBoundKeys vp fs)"
  by (simp add: bindKeys_eq withBoundKeys_def bindAll_def)

lemma map_of_env_withBoundKeys:
  "map_of (env (withBoundKeys vp fs)) k =
     (if k \<in> fst ` set (flattenMap [] (decodeFields fs)) then Some (envVarName vp k)
      else map_of (env vp) k)"
  using map_of_bindAll[of "envVarName vp" "env vp" "remdups (map fst (flattenMap [] (decodeFields fs)))" k]
  by (simp add: withBoundKeys_def bindAll_def)

lemma config_withBoundKeys [simp]: "config (withBoundKeys vp fs) = config vp"
  by (simp add: withBoundKeys_def)

lemma Load_valid:
  assumes "l_v l = Some a" and "a < length h"
  shows "Load wd l h w (PPtr (Some (GStruct fs))) =
    (case ReadInConfig (AutomaticEnv (h ! a)) w of
       (rerr, v1, tr1) \<Rightarrow>
         if rerr = Some ConfigParseError
         then Inr (Some ConfigFileParseError, l, h[a := v1], PPtr (Some (GStruct fs)), tr1)
         else Inr (if unmarshalOk wd (Merge (withBoundKeys v1 fs) w) (setDefaultsFields fs)
                   then None else Some DecodeError,
                   l, h[a := withBoundKeys v1 fs],
                   PPtr (Some (GStruct
                     (unmarshalFields wd (Merge (withBoundKeys v1 fs) w) [] (setDefaultsFields fs)))),
                   tr1 @ map (\<lambda>(key, name). EnvLookup name) (env (withBoundKeys v1 fs))))"
proof (cases "ReadInConfig (AutomaticEnv (h ! a)) w")
  case (fields rerr v1 tr1)
  show ?thesis
  proof (cases rerr)
    case None
    with fields assms show ?thesis
      by (simp add: Load_def getFlattenedStructKeys_valid bindKeys_withBoundKeys)
  next
    case (Some e)
    with fields assms show ?thesis
      by (cases e) (simp_all add: Load_def getFlattenedStructKeys_valid bindKeys_withBoundKeys)
  qed
qed

lemma ReadInConfig_not_found:
  "\<forall>dir \<in> set (configPaths vp). files w (joinPath dir (configFileName vp)) = None \<Longrightarrow>
   ReadInConfig vp w =
     (Some ConfigFileNotFoundError, vp\<lparr>config := []\<rparr>,
      map (\<lambda>dir. FileAccess (joinPath dir (configFileName vp))) (configPaths vp))"
  by (simp add: ReadInConfig_def searchInPaths_none)

lemma ReadInConfig_found:
  "configPaths vp = ds @ d # ds' \<Longrightarrow>
   \<forall>dir \<in> set ds. files w (joinPath dir (configFileName vp)) = None \<Longrightarrow>
   files w (joinPath d (configFileName vp)) = Some c \<Longrightarrow>
   ReadInConfig vp w =
     (case c of
        Malformed \<Rightarrow> (Some ConfigParseError, vp,
           map (\<lambda>dir. FileAccess (joinPath dir (configFileName vp))) (ds @ [d]))
      | Settings kvs \<Rightarrow> (None, vp\<lparr>config := kvs\<rparr>,
           map (\<lambda>dir. FileAccess (joinPath dir (configFileName vp))) (ds @ [d])))"
  by (cases c) (simp_all add: ReadInConfig_def searchInPaths_first)

lemma AutomaticEnv_fields [simp]:
  "configPaths (AutomaticEnv vp) = configPaths vp"
  "configFileName (AutomaticEnv vp) = configFileName vp"
  "config (AutomaticEnv vp) = config vp"
  "env (AutomaticEnv vp) = env vp"
  by (simp_all add: AutomaticEnv_def configFileName_def)

subsection \<open>Defaults\<close>

text \<open>
  Claim C2. For a Loader that points to an instance and a target that points to a struct:
  when none of the search paths holds the configuration file and the variable of none of the
  target's keys is set, \<open>Load\<close> returns no error and leaves in the target what applying the
  declared defaults gives, so a field with a declared default holds it.
\<close>

theorem Load_defaults:
  assumes "l_v l = Some a" and "a < length h"
    and nofile: "\<forall>dir \<in> set (configPaths (h ! a)).
                   files w (joinPath dir (configFileName (h ! a))) = None"
    and noenv: "\<forall>key \<in> fst ` set (flattenMap [] (decodeFields fs)).
                   environ w (envVarName (h ! a) key) = None"
  shows "\<exists>h' tr. Load wd l h w (PPtr (Some (GStruct fs))) =
           Inr (None, l, h', defaults_SetDefaults (PPtr (Some (GStruct fs))), tr)"
proof -
  let ?v1 = "(AutomaticEnv (h ! a))\<lparr>config := []\<rparr>"
  let ?m = "Merge (withBoundKeys ?v1 fs) w"
  from nofile have rd: "ReadInConfig (AutomaticEnv (h ! a)) w =
      (Some ConfigFileNotFoundError, ?v1,
       map (\<lambda>dir. FileAccess (joinPath dir (configFileName (h ! a)))) (configPaths (h ! a)))"
    using ReadInConfig_not_found[of "AutomaticEnv (h ! a)" w] by simp
  have none: "\<forall>k \<in> fst ` set (flattenMap [] (decodeFields (setDefaultsFields fs))). ?m k = None"
  proof
    fix k assume "k \<in> fst ` set (flattenMap [] (decodeFields (setDefaultsFields fs)))"
    then have "k \<in> set (map fst (flattenMap [] (decodeFields (setDefaultsFields fs))))" by simp
    then have k: "k \<in> fst ` set (flattenMap [] (decodeFields fs))"
      unfolding flatten_setDefaults_keys(2) by simp
    have "environ w (envVarName (h ! a) k) = None" by (rule bspec[OF noenv k])
    with k show "?m k = None"
      by (simp add: Merge_def map_of_env_withBoundKeys)
  qed
  from unmarshal_no_values(2)[OF none] unmarshalOk_no_values[OF none]
  show ?thesis
    by (simp add: Load_valid[OF assms(1,2)] rd)
qed


text \<open>
  The specification's scenario with no file and an empty environment: \<open>Port\<close> is 8080.
\<close>

theorem Load_defaults_witness:
  "\<exists>h' tr. Load exampleDecode \<lparr>l_v = Some 0\<rparr> [appViper] \<lparr>files = Map.empty, environ = Map.empty\<rparr>
       (PPtr (Some (GStruct portSchema))) =
     Inr (None, \<lparr>l_v = Some 0\<rparr>, h',
          PPtr (Some (GStruct [Fld ''server'' None (GStruct [Fld ''port'' (Some (GInt 8080)) (GInt 8080)])])),
          tr)"
  using Load_defaults[of "\<lparr>l_v = Some 0\<rparr>" 0 "[appViper]" "\<lparr>files = Map.empty, environ = Map.empty\<rparr>"
      portSchema exampleDecode]
  by (simp add: portSchema_def applyDefault_def)

end
